theory Spec2Isabelle
  imports Main
begin

section \<open>Tables of the store (models.py)\<close>

text \<open>
  The rows of \<^verbatim>\<open>Conversation\<close> and \<^verbatim>\<open>Message\<close>. Every column but the primary key is
  declared without \<^verbatim>\<open>Optional\<close>, so a stored row holds a value in each of them. A
  timestamp is the reading of \<^verbatim>\<open>datetime.utcnow\<close> taken when the \<^verbatim>\<open>Message\<close> object is
  built; it is a number here.
\<close>

type_synonym time = nat

record conversation =
  c_id :: int
  c_user_a :: int
  c_user_b :: int

record message =
  m_id :: int
  m_conversation_id :: int
  m_sender_id :: int
  m_content :: string
  m_timestamp :: time

text \<open>Each table is the list of its rows in the order of insertion.\<close>

record store =
  conversations :: "conversation list"
  messages :: "message list"

datatype error = JSONError | TypeError | IntegrityError

text \<open>
  The primary key of a new row is given by the database: one more than the greatest key
  of the table, 1 in an empty table.
\<close>

fun max_id :: "int list \<Rightarrow> int" where
  "max_id [] = 0"
| "max_id (i # ids) = max i (max_id ids)"

definition next_id :: "int list \<Rightarrow> int" where
  "next_id ids = max_id ids + 1"

text \<open>
  \<^verbatim>\<open>conv = Conversation(user_a=user_id, user_b=receiver_id); session.add(conv);
  session.commit(); session.refresh(conv)\<close>. The column \<^verbatim>\<open>user_b\<close> is not nullable: the
  commit of a row without it raises. The foreign keys of the schema are not checked:
  whether the engine enforces them is set where the engine is created, outside main.py
  and models.py.
\<close>

definition commit_conversation ::
  "int \<Rightarrow> int option \<Rightarrow> store \<Rightarrow> error + conversation \<times> store" where
  "commit_conversation user_a user_b st =
     (case user_b of
        None \<Rightarrow> Inl IntegrityError
      | Some b \<Rightarrow>
          (let conv = \<lparr>c_id = next_id (map c_id (conversations st)),
                       c_user_a = user_a, c_user_b = b\<rparr>
           in Inr (conv, st\<lparr>conversations := conversations st @ [conv]\<rparr>)))"

text \<open>
  \<^verbatim>\<open>msg = Message(conversation_id=conv_id, sender_id=user_id, content=content);
  session.add(msg); session.commit(); session.refresh(msg)\<close>. The column \<^verbatim>\<open>content\<close> is
  not nullable.
\<close>

definition commit_message ::
  "int \<Rightarrow> int \<Rightarrow> string option \<Rightarrow> time \<Rightarrow> store \<Rightarrow> error + message \<times> store" where
  "commit_message conv_id user_id content now st =
     (case content of
        None \<Rightarrow> Inl IntegrityError
      | Some text \<Rightarrow>
          (let msg = \<lparr>m_id = next_id (map m_id (messages st)),
                      m_conversation_id = conv_id, m_sender_id = user_id,
                      m_content = text, m_timestamp = now\<rparr>
           in Inr (msg, st\<lparr>messages := messages st @ [msg]\<rparr>)))"

text \<open>The read path \<^verbatim>\<open>GET /messages/{conversation_id}\<close>, ordered by timestamp.\<close>

definition get_messages :: "int \<Rightarrow> store \<Rightarrow> message list" where
  "get_messages conversation_id st =
     sort_key m_timestamp (filter (\<lambda>m. m_conversation_id m = conversation_id) (messages st))"

text \<open>The read path \<^verbatim>\<open>GET /conversations/{user_id}\<close>.\<close>

definition get_conversations :: "int \<Rightarrow> store \<Rightarrow> conversation list" where
  "get_conversations user_id st =
     filter (\<lambda>c. c_user_a c = user_id \<or> c_user_b c = user_id) (conversations st)"


section \<open>Frames of the wire protocol\<close>

text \<open>
  An inbound text is a JSON object, read with \<^verbatim>\<open>obj.get\<close> (a missing key and a null are
  both \<^verbatim>\<open>None\<close>), or something \<^verbatim>\<open>json.loads\<close> or \<^verbatim>\<open>obj.get\<close> raises on. A field that is
  present has the type of the wire protocol: an integer for \<^verbatim>\<open>to\<close> and
  \<^verbatim>\<open>conversation_id\<close>, a string for \<^verbatim>\<open>content\<close>.
\<close>

record frame =
  f_to :: "int option"
  f_content :: "string option"
  f_conversation_id :: "int option"

datatype inbound = Json_object frame | Not_json_object

record payload_out =
  p_conversation_id :: int
  p_sender_id :: int
  p_content :: "string option"
  p_timestamp :: time


section \<open>The relay (main.py, websocket_endpoint)\<close>

text \<open>
  A handle names one \<^verbatim>\<open>WebSocket\<close> object. The effects of the endpoint on sockets are the
  calls \<^verbatim>\<open>accept\<close>, \<^verbatim>\<open>send_text\<close> and \<^verbatim>\<open>close\<close>, listed in the order they are made; a failure of the
  transport inside such a call is not part of the model.
\<close>

type_synonym handle = nat

datatype effect = Accept handle | Send_text handle payload_out | Close handle nat

text \<open>
  Where the coroutine of a connection stands: inside its \<^verbatim>\<open>while True\<close> loop for a user,
  returned (after a refused token or a \<^verbatim>\<open>WebSocketDisconnect\<close>), or left by an exception
  the endpoint does not catch.
\<close>

datatype phase = Active int | Closed | Failed error

record server =
  active_connections :: "int \<rightharpoonup> handle"
  sessions :: "handle \<rightharpoonup> phase"
  db :: store

definition boot :: server where
  "boot = \<lparr>active_connections = Map.empty, sessions = Map.empty,
           db = \<lparr>conversations = [], messages = []\<rparr>\<rparr>"

text \<open>
  What main.py imports and calls without defining: \<^verbatim>\<open>decode_access_token\<close> of auth.py
  (the payload as a list of claims, \<^verbatim>\<open>None\<close> for a token it refuses) and the builtin
  \<^verbatim>\<open>int\<close> applied to \<^verbatim>\<open>payload.get("sub")\<close> (\<^verbatim>\<open>None\<close> where it raises a
  \<^verbatim>\<open>TypeError\<close> or a \<^verbatim>\<open>ValueError\<close>; the model records both as \<open>TypeError\<close>).
\<close>

record env =
  decode_access_token :: "string \<Rightarrow> (string \<times> string) list option"
  py_int :: "string option \<Rightarrow> int option"

text \<open>Lines 139 to 149: accept, decode the token, register.\<close>

definition connect :: "env \<Rightarrow> handle \<Rightarrow> string \<Rightarrow> server \<Rightarrow> effect list \<times> server" where
  "connect ev websocket token s =
     (case decode_access_token ev token of
        None \<Rightarrow>
          ([Accept websocket, Close websocket 1008],
           s\<lparr>sessions := (sessions s)(websocket \<mapsto> Closed)\<rparr>)
      | Some payload \<Rightarrow>
          if payload = [] then
            ([Accept websocket, Close websocket 1008],
             s\<lparr>sessions := (sessions s)(websocket \<mapsto> Closed)\<rparr>)
          else
            (case py_int ev (map_of payload ''sub'') of
               None \<Rightarrow>
                 ([Accept websocket],
                  s\<lparr>sessions := (sessions s)(websocket \<mapsto> Failed TypeError)\<rparr>)
             | Some user_id \<Rightarrow>
                 ([Accept websocket],
                  s\<lparr>active_connections := (active_connections s)(user_id \<mapsto> websocket),
                    sessions := (sessions s)(websocket \<mapsto> Active user_id)\<rparr>)))"

text \<open>
  Lines 153 to 194: one turn of the loop, for the text \<open>raw\<close> received when the clock
  reads \<open>now\<close>. The result is the exception raised or the sends made, with the server as
  the turn leaves it: a conversation committed before a failing commit of the message
  stays in the store.
\<close>

definition relay ::
  "handle \<Rightarrow> int \<Rightarrow> inbound \<Rightarrow> time \<Rightarrow> server \<Rightarrow> (error + effect list) \<times> server" where
  "relay websocket user_id raw now s =
     (case raw of
        Not_json_object \<Rightarrow> (Inl JSONError, s)
      | Json_object obj \<Rightarrow>
          (let receiver_id = f_to obj;
               content = f_content obj
           in
             case (case f_conversation_id obj of
                     None \<Rightarrow>
                       (case commit_conversation user_id receiver_id (db s) of
                          Inl e \<Rightarrow> Inl e
                        | Inr (conv, st) \<Rightarrow> Inr (c_id conv, st))
                   | Some c \<Rightarrow> Inr (c, db s)) of
               Inl e \<Rightarrow> (Inl e, s)
             | Inr (conv_id, st1) \<Rightarrow>
                 (case commit_message conv_id user_id content now st1 of
                    Inl e \<Rightarrow> (Inl e, s\<lparr>db := st1\<rparr>)
                  | Inr (msg, st2) \<Rightarrow>
                      (let out = \<lparr>p_conversation_id = conv_id, p_sender_id = user_id,
                                   p_content = content, p_timestamp = m_timestamp msg\<rparr>;
                           forwarded =
                             (case receiver_id of
                                None \<Rightarrow> []
                              | Some r \<Rightarrow>
                                  (case active_connections s r of
                                     None \<Rightarrow> []
                                   | Some ws \<Rightarrow> [Send_text ws out]))
                       in (Inr (forwarded @ [Send_text websocket out]), s\<lparr>db := st2\<rparr>)))))"

text \<open>Lines 196 to 199: the handler of \<^verbatim>\<open>WebSocketDisconnect\<close>.\<close>

definition disconnect :: "handle \<Rightarrow> int \<Rightarrow> server \<Rightarrow> server" where
  "disconnect websocket user_id s =
     (if active_connections s user_id \<noteq> None
      then s\<lparr>active_connections := (active_connections s)(user_id := None),
             sessions := (sessions s)(websocket \<mapsto> Closed)\<rparr>
      else s\<lparr>sessions := (sessions s)(websocket \<mapsto> Closed)\<rparr>)"

text \<open>
  The server as a transition system. A new connection comes on a handle never seen
  before; a text or a disconnect reaches a connection only while its loop runs. An
  exception that leaves the loop ends the connection and runs no handler. A turn of the
  loop is one step: its commits are synchronous calls, and the registry is read once,
  after them, for the send to the recipient.
\<close>

datatype event =
  Connect handle string
| Receive handle inbound time
| Disconnect handle

fun step :: "env \<Rightarrow> event \<Rightarrow> server \<Rightarrow> effect list \<times> server" where
  "step ev (Connect h token) s =
     (if sessions s h = None then connect ev h token s else ([], s))"
| "step ev (Receive h raw now) s =
     (case sessions s h of
        Some (Active user_id) \<Rightarrow>
          (case relay h user_id raw now s of
             (Inl e, s') \<Rightarrow> ([], s'\<lparr>sessions := (sessions s')(h \<mapsto> Failed e)\<rparr>)
           | (Inr outs, s') \<Rightarrow> (outs, s'))
      | _ \<Rightarrow> ([], s))"
| "step ev (Disconnect h) s =
     (case sessions s h of
        Some (Active user_id) \<Rightarrow> ([], disconnect h user_id s)
      | _ \<Rightarrow> ([], s))"

fun run :: "env \<Rightarrow> event list \<Rightarrow> server \<Rightarrow> effect list \<times> server" where
  "run ev [] s = ([], s)"
| "run ev (e # es) s =
     (case step ev e s of
        (outs, s1) \<Rightarrow> (case run ev es s1 of (outs', s2) \<Rightarrow> (outs @ outs', s2)))"

text \<open>
  A sample environment for running the server on closed inputs: the token \<^verbatim>\<open>none\<close> is
  refused, \<^verbatim>\<open>empty\<close> decodes to a payload without claims, any other token decodes to
  the payload whose \<^verbatim>\<open>sub\<close> is the token itself; \<^verbatim>\<open>int\<close> reads the numerals 1, 2 and 5.
\<close>

definition demo_env :: env where
  "demo_env =
     \<lparr>decode_access_token =
        (\<lambda>t. if t = ''none'' then None
             else if t = ''empty'' then Some []
             else Some [(''sub'', t)]),
      py_int =
        (\<lambda>v. if v = Some ''1'' then Some 1
             else if v = Some ''2'' then Some 2
             else if v = Some ''5'' then Some 5
             else None)\<rparr>"

text \<open>Sample states and frames: users logged in under the sample environment.\<close>

definition one_user :: server where
  "one_user = snd (run demo_env [Connect 1 ''1''] boot)"

definition hi_frame :: frame where
  "hi_frame = \<lparr>f_to = Some 2, f_content = Some ''hi'', f_conversation_id = None\<rparr>"

definition after_hi :: server where
  "after_hi = snd (run demo_env [Connect 1 ''1'', Receive 1 (Json_object hi_frame) 10] boot)"

definition two_users :: server where
  "two_users = snd (run demo_env [Connect 1 ''1'', Connect 2 ''2''] boot)"

definition no_recipient_frame :: frame where
  "no_recipient_frame = \<lparr>f_to = None, f_content = Some ''more'', f_conversation_id = Some 1\<rparr>"

definition to_five_frame :: frame where
  "to_five_frame = \<lparr>f_to = Some 5, f_content = Some ''hello'', f_conversation_id = None\<rparr>"

definition intruder_state :: server where
  "intruder_state = snd (run demo_env
     [Connect 1 ''1'', Connect 3 ''5'',
      Receive 1 (Json_object \<lparr>f_to = Some 2, f_content = Some ''hi'', f_conversation_id = None\<rparr>) 10]
     boot)"

definition intruder_frame :: frame where
  "intruder_frame = \<lparr>f_to = Some 2, f_content = Some ''boo'', f_conversation_id = Some 1\<rparr>"

definition yo_frame :: frame where
  "yo_frame = \<lparr>f_to = Some 1, f_content = Some ''yo'', f_conversation_id = None\<rparr>"

definition again_frame :: frame where
  "again_frame = \<lparr>f_to = Some 2, f_content = Some ''again'', f_conversation_id = Some 1\<rparr>"

section \<open>Basic facts\<close>

lemma max_id_ge: "i \<in> set ids \<Longrightarrow> i \<le> max_id ids"
  by (induction ids) auto

lemma next_id_fresh: "i \<in> set ids \<Longrightarrow> i < next_id ids"
  using max_id_ge [of i ids] by (simp add: next_id_def)

lemma set_get_messages:
  "set (get_messages cid st) = {m \<in> set (messages st). m_conversation_id m = cid}"
  by (simp add: get_messages_def)

text \<open>A turn of the loop on a frame that names its conversation and has a content.\<close>

lemma relay_with_conv:
  assumes "f_content f = Some c" and "f_conversation_id f = Some cid"
  shows "relay h uid (Json_object f) now s =
    (Inr ((case f_to f of
             None \<Rightarrow> []
           | Some r \<Rightarrow>
               (case active_connections s r of
                  None \<Rightarrow> []
                | Some ws \<Rightarrow>
                    [Send_text ws \<lparr>p_conversation_id = cid, p_sender_id = uid,
                                   p_content = Some c, p_timestamp = now\<rparr>]))
          @ [Send_text h \<lparr>p_conversation_id = cid, p_sender_id = uid,
                          p_content = Some c, p_timestamp = now\<rparr>]),
     s\<lparr>db := (db s)\<lparr>messages := messages (db s) @
          [\<lparr>m_id = next_id (map m_id (messages (db s))), m_conversation_id = cid,
            m_sender_id = uid, m_content = c, m_timestamp = now\<rparr>]\<rparr>\<rparr>)"
  using assms by (simp add: relay_def commit_message_def Let_def split: option.splits)

text \<open>A turn of the loop on a frame with a recipient, a content and no conversation.\<close>

lemma relay_new_conv:
  assumes "f_content f = Some c" and "f_conversation_id f = None" and "f_to f = Some r"
  shows "relay h uid (Json_object f) now s =
    (Inr ((case active_connections s r of
             None \<Rightarrow> []
           | Some ws \<Rightarrow>
               [Send_text ws \<lparr>p_conversation_id = next_id (map c_id (conversations (db s))),
                              p_sender_id = uid, p_content = Some c, p_timestamp = now\<rparr>])
          @ [Send_text h \<lparr>p_conversation_id = next_id (map c_id (conversations (db s))),
                          p_sender_id = uid, p_content = Some c, p_timestamp = now\<rparr>]),
     s\<lparr>db := (db s)\<lparr>conversations := conversations (db s) @
          [\<lparr>c_id = next_id (map c_id (conversations (db s))), c_user_a = uid, c_user_b = r\<rparr>],
         messages := messages (db s) @
          [\<lparr>m_id = next_id (map m_id (messages (db s))),
            m_conversation_id = next_id (map c_id (conversations (db s))),
            m_sender_id = uid, m_content = c, m_timestamp = now\<rparr>]\<rparr>\<rparr>)"
  using assms
  by (simp add: relay_def commit_message_def commit_conversation_def Let_def
      split: option.splits)

lemma step_receive_ok:
  "sessions s h = Some (Active uid) \<Longrightarrow> relay h uid raw now s = (Inr outs, s')
   \<Longrightarrow> step ev (Receive h raw now) s = (outs, s')"
  by simp

lemma step_receive_effect:
  assumes "sessions s h = Some (Active a)" and "f_to f = Some r" and "f_content f = Some c"
  shows "\<exists>out msg.
           fst (step ev (Receive h (Json_object f) now) s) =
             (case active_connections s r of None \<Rightarrow> [] | Some ws \<Rightarrow> [Send_text ws out])
             @ [Send_text h out]
         \<and> p_sender_id out = a \<and> p_content out = Some c \<and> p_timestamp out = now
         \<and> messages (db (snd (step ev (Receive h (Json_object f) now) s))) =
             messages (db s) @ [msg]
         \<and> m_id msg = next_id (map m_id (messages (db s)))
         \<and> m_sender_id msg = a \<and> m_content msg = c \<and> m_timestamp msg = now"
proof (cases "f_conversation_id f")
  case None
  show ?thesis
    using step_receive_ok [OF assms(1) relay_new_conv [OF assms(3) None assms(2)], of ev]
    by (simp split: option.splits)
next
  case (Some cid)
  show ?thesis
    using step_receive_ok [OF assms(1) relay_with_conv [OF assms(3) Some], of ev]
    by (simp add: assms(2) split: option.splits)
qed

text \<open>The list of events is run from the left.\<close>

lemma run_Cons_fst:
  "fst (run ev (e # es) s) = fst (step ev e s) @ fst (run ev es (snd (step ev e s)))"
  by (simp split: prod.splits)

lemma run_Cons_snd: "snd (run ev (e # es) s) = snd (run ev es (snd (step ev e s)))"
  by (simp split: prod.splits)

lemma run_append_fst:
  "fst (run ev (xs @ ys) s) = fst (run ev xs s) @ fst (run ev ys (snd (run ev xs s)))"
proof (induction xs arbitrary: s)
  case Nil
  show ?case by simp
next
  case (Cons x xs)
  show ?case
    by (simp only: append_Cons run_Cons_fst run_Cons_snd Cons.IH append_assoc)
qed

lemma run_append_snd: "snd (run ev (xs @ ys) s) = snd (run ev ys (snd (run ev xs s)))"
proof (induction xs arbitrary: s)
  case Nil
  show ?case by simp
next
  case (Cons x xs)
  show ?case by (simp only: append_Cons run_Cons_snd Cons.IH)
qed

lemma run_snoc_snd: "snd (run ev (evs @ [e]) s) = snd (step ev e (snd (run ev evs s)))"
  by (simp add: run_append_snd split: prod.splits)

text \<open>A turn of the loop touches neither the registry nor the phases.\<close>

lemma relay_keeps_registry:
  "active_connections (snd (relay h uid raw now s)) = active_connections s"
  "sessions (snd (relay h uid raw now s)) = sessions s"
  by (auto simp: relay_def commit_conversation_def commit_message_def Let_def
      split: inbound.splits option.splits sum.splits prod.splits)

lemma relay_result:
  assumes "relay h uid raw now s = (r, s')"
  shows "active_connections s' = active_connections s" and "sessions s' = sessions s"
  using relay_keeps_registry [of h uid raw now s] assms by simp_all

lemma step_receive_sessions_other:
  "h \<noteq> h' \<Longrightarrow> sessions (snd (step ev (Receive h' raw now) s)) h = sessions s h"
  by (auto split: option.splits phase.splits sum.splits prod.splits dest: relay_result(2))

lemma connect_sessions_other:
  "h' \<noteq> h \<Longrightarrow> sessions (snd (connect ev h token s)) h' = sessions s h'"
  by (simp add: connect_def split: option.splits)

text \<open>A connection that has ended, by a close or by an exception, stays as it is.\<close>

lemma step_keeps_ended:
  assumes "sessions s h = Some p" and "\<forall>u. p \<noteq> Active u"
  shows "sessions (snd (step ev e s)) h = Some p"
proof (cases e)
  case (Connect h' token)
  show ?thesis
  proof (cases "sessions s h' = None")
    case True
    with assms(1) have "h \<noteq> h'" by auto
    with True Connect assms(1) show ?thesis by (simp add: connect_sessions_other)
  next
    case False
    with Connect assms(1) show ?thesis by auto
  qed
next
  case (Receive h' raw now)
  show ?thesis
  proof (cases "h' = h")
    case True
    then show ?thesis using assms Receive by (cases p) auto
  next
    case False
    then show ?thesis
      using assms(1) Receive step_receive_sessions_other [of h h' ev raw now s] by simp
  qed
next
  case (Disconnect h')
  show ?thesis
  proof (cases "h' = h")
    case True
    then show ?thesis using assms Disconnect by (cases p) auto
  next
    case False
    then show ?thesis using assms(1) Disconnect
      by (auto simp: disconnect_def split: option.splits phase.splits)
  qed
qed

lemma run_keeps_ended:
  assumes "sessions s h = Some p" and "\<forall>u. p \<noteq> Active u"
  shows "sessions (snd (run ev evs s)) h = Some p"
  using assms(1)
proof (induction evs arbitrary: s)
  case Nil
  then show ?case by simp
next
  case (Cons e evs)
  have "sessions (snd (step ev e s)) h = Some p"
    using step_keeps_ended [OF Cons.prems assms(2)] .
  from Cons.IH [OF this] show ?case by (simp only: run_Cons_snd)
qed

section \<open>Unregistration on disconnect\<close>

text \<open>
  C1 (as the code has it). The handler of a disconnect deletes the entry of its user
  whatever handle the entry holds: when a connection \<open>old\<close> of a user disconnects while
  the registry maps the user to a handle \<open>new\<close>, also one registered later by another
  connection, the user has no entry afterwards.
\<close>

theorem disconnect_evicts_newer_handle:
  assumes "sessions s old = Some (Active uid)"
    and "active_connections s uid = Some new"
  shows "active_connections (snd (step ev (Disconnect old) s)) uid = None"
  using assms by (simp add: disconnect_def)

theorem disconnect_evicts_newer_handle_witness:
  "active_connections (snd (run demo_env [Connect 1 ''5'', Connect 2 ''5''] boot)) 5 = Some 2 \<and>
   sessions (snd (run demo_env [Connect 1 ''5'', Connect 2 ''5''] boot)) 1 = Some (Active 5) \<and>
   active_connections (snd (step demo_env (Disconnect 1)
      (snd (run demo_env [Connect 1 ''5'', Connect 2 ''5''] boot)))) 5 = None"
proof -
  let ?s = "snd (run demo_env [Connect 1 ''5'', Connect 2 ''5''] boot)"
  have a: "sessions ?s 1 = Some (Active 5)"
    by code_simp
  have b: "active_connections ?s 5 = Some 2"
    by code_simp
  from disconnect_evicts_newer_handle [OF a b, of demo_env] a b show ?thesis by blast
qed

text \<open>
  C1 as the specification states it fails: user 5 logs in on connection 1, then on
  connection 2; the registry maps 5 to 2. Connection 1 then disconnects, and the registry
  no longer maps 5 to 2.
\<close>

theorem stale_unregister_counterexample:
  "active_connections (snd (run demo_env [Connect 1 ''5'', Connect 2 ''5''] boot)) 5 = Some 2 \<and>
   active_connections
     (snd (run demo_env [Connect 1 ''5'', Connect 2 ''5'', Disconnect 1] boot)) 5 \<noteq> Some 2"
  by code_simp

section \<open>Registry entries and running loops\<close>

text \<open>
  Every entry of the registry points to a connection that logged in as the entry's user
  and has not returned: its loop runs, or an exception has left it. A step of the server
  keeps this.
\<close>

lemma step_registry_linked:
  assumes "\<forall>uid h. active_connections s uid = Some h \<longrightarrow>
             sessions s h = Some (Active uid) \<or> (\<exists>e. sessions s h = Some (Failed e))"
  shows "\<forall>uid h. active_connections (snd (step ev e s)) uid = Some h \<longrightarrow>
           sessions (snd (step ev e s)) h = Some (Active uid)
           \<or> (\<exists>x. sessions (snd (step ev e s)) h = Some (Failed x))"
proof (cases e)
  case (Connect h' token)
  show ?thesis
  proof (cases "sessions s h' = None")
    case True
    then have "\<forall>uid. active_connections s uid \<noteq> Some h'"
      using assms by fastforce
    then show ?thesis
      using assms True Connect
      by (auto simp: connect_def split: option.splits if_splits)
  next
    case False
    then show ?thesis using assms Connect by auto
  qed
next
  case (Receive h' raw now)
  show ?thesis
  proof (cases "sessions s h'")
    case None
    then show ?thesis using assms Receive by simp
  next
    case (Some p)
    show ?thesis
    proof (cases p)
      case (Active a)
      obtain r s' where rel: "relay h' a raw now s = (r, s')" by (cases "relay h' a raw now s")
      note same = relay_result [OF rel]
      show ?thesis
      proof (cases r)
        case (Inl x)
        then show ?thesis
          using assms Receive Some Active rel same by auto
      next
        case (Inr outs)
        then show ?thesis
          using assms Receive Some Active rel same by auto
      qed
    next
      case Closed
      then show ?thesis using assms Receive Some by simp
    next
      case (Failed x)
      then show ?thesis using assms Receive Some by simp
    qed
  qed
next
  case (Disconnect h')
  show ?thesis
  proof (cases "sessions s h'")
    case None
    then show ?thesis using assms Disconnect by simp
  next
    case (Some p)
    show ?thesis
    proof (cases p)
      case (Active a)
      have only: "\<forall>uid. active_connections s uid = Some h' \<longrightarrow> uid = a"
        using assms Some Active by fastforce
      show ?thesis
        using assms Disconnect Some Active only
        by (auto simp: disconnect_def split: if_splits)
    next
      case Closed
      then show ?thesis using assms Disconnect Some by simp
    next
      case (Failed x)
      then show ?thesis using assms Disconnect Some by simp
    qed
  qed
qed

lemma run_registry_linked:
  assumes "\<forall>uid h. active_connections s uid = Some h \<longrightarrow>
             sessions s h = Some (Active uid) \<or> (\<exists>e. sessions s h = Some (Failed e))"
  shows "\<forall>uid h. active_connections (snd (run ev evs s)) uid = Some h \<longrightarrow>
           sessions (snd (run ev evs s)) h = Some (Active uid)
           \<or> (\<exists>x. sessions (snd (run ev evs s)) h = Some (Failed x))"
  using assms
proof (induction evs arbitrary: s)
  case Nil
  then show ?case by simp
next
  case (Cons e evs)
  from Cons.IH [OF step_registry_linked [OF Cons.prems, of ev e]]
  show ?case by (simp only: run_Cons_snd)
qed

text \<open>
  Every entry of the registry was written by a connect with an accepted token, on the
  handle it holds and for the user it belongs to.
\<close>

lemma step_registers:
  assumes "active_connections (snd (step ev e s)) uid = Some h"
  shows "active_connections s uid = Some h
         \<or> (\<exists>token p. e = Connect h token \<and> sessions s h = None
               \<and> decode_access_token ev token = Some p \<and> p \<noteq> []
               \<and> py_int ev (map_of p ''sub'') = Some uid)"
proof (cases e)
  case (Connect c token)
  then show ?thesis
    using assms by (auto simp: connect_def split: option.splits if_splits)
next
  case (Receive c raw now)
  show ?thesis
  proof (cases "sessions s c")
    case None
    then show ?thesis using assms Receive by simp
  next
    case (Some ph)
    show ?thesis
    proof (cases ph)
      case (Active a)
      obtain r s' where rel: "relay c a raw now s = (r, s')" by (cases "relay c a raw now s")
      note same = relay_result [OF rel]
      show ?thesis using assms Receive Some Active rel same by (cases r) auto
    next
      case Closed
      then show ?thesis using assms Receive Some by simp
    next
      case (Failed x)
      then show ?thesis using assms Receive Some by simp
    qed
  qed
next
  case (Disconnect c)
  then show ?thesis
    using assms
    by (auto simp: disconnect_def split: option.splits phase.splits if_splits)
qed

lemma registry_history:
  "active_connections (snd (run ev evs boot)) uid = Some h \<Longrightarrow>
   \<exists>pre token post p. evs = pre @ Connect h token # post
      \<and> sessions (snd (run ev pre boot)) h = None
      \<and> decode_access_token ev token = Some p \<and> p \<noteq> []
      \<and> py_int ev (map_of p ''sub'') = Some uid"
proof (induction evs rule: rev_induct)
  case Nil
  then show ?case by (simp add: boot_def)
next
  case (snoc e evs)
  from snoc.prems
  have "active_connections (snd (step ev e (snd (run ev evs boot)))) uid = Some h"
    by (simp only: run_snoc_snd)
  from step_registers [OF this]
  show ?case
  proof
    assume "active_connections (snd (run ev evs boot)) uid = Some h"
    from snoc.IH [OF this]
    obtain pre token post p where d: "evs = pre @ Connect h token # post"
      "sessions (snd (run ev pre boot)) h = None"
      "decode_access_token ev token = Some p" "p \<noteq> []"
      "py_int ev (map_of p ''sub'') = Some uid"
      by blast
    from d(1) have "evs @ [e] = pre @ Connect h token # (post @ [e])" by simp
    with d(2-5) show ?thesis by blast
  next
    assume "\<exists>token p. e = Connect h token \<and> sessions (snd (run ev evs boot)) h = None
               \<and> decode_access_token ev token = Some p \<and> p \<noteq> []
               \<and> py_int ev (map_of p ''sub'') = Some uid"
    then obtain token p where d: "e = Connect h token"
      "sessions (snd (run ev evs boot)) h = None"
      "decode_access_token ev token = Some p" "p \<noteq> []"
      "py_int ev (map_of p ''sub'') = Some uid"
      by blast
    from d(1) have "evs @ [e] = evs @ Connect h token # []" by simp
    with d(2-5) show ?thesis by blast
  qed
qed

text \<open>
  C2 (as the code has it). From boot on, a user in the registry is mapped to the handle
  of a connection that came on that handle with an accepted token of that user; unless
  an exception has left the loop of that connection, the loop is active for that user.
  A connect with an accepted token writes the entry of its user, under its own handle,
  and no other entry; entries come from nowhere else. A disconnect of an active
  connection removes the entry of its user, whatever handle it holds, and no other
  entry. A frame that is relayed leaves the registry as it is.
\<close>

theorem registry_entry_lifecycle:
  "(active_connections (snd (run ev evs boot)) uid = Some h \<longrightarrow>
      (\<exists>pre token post p. evs = pre @ Connect h token # post
          \<and> sessions (snd (run ev pre boot)) h = None
          \<and> decode_access_token ev token = Some p \<and> p \<noteq> []
          \<and> py_int ev (map_of p ''sub'') = Some uid)
      \<and> ((\<forall>x. sessions (snd (run ev evs boot)) h \<noteq> Some (Failed x)) \<longrightarrow>
           sessions (snd (run ev evs boot)) h = Some (Active uid)))
   \<and> (sessions s c = None \<and> decode_access_token ev tok = Some q \<and> q \<noteq> []
        \<and> py_int ev (map_of q ''sub'') = Some u \<longrightarrow>
      active_connections (snd (step ev (Connect c tok) s)) = (active_connections s)(u \<mapsto> c)
      \<and> sessions (snd (step ev (Connect c tok) s)) c = Some (Active u))
   \<and> (sessions s c = Some (Active u) \<longrightarrow>
      active_connections (snd (step ev (Disconnect c) s)) = (active_connections s)(u := None)
      \<and> sessions (snd (step ev (Disconnect c) s)) c = Some Closed)
   \<and> (sessions s c = Some (Active u) \<and> relay c u raw now s = (Inr outs, s') \<longrightarrow>
      active_connections (snd (step ev (Receive c raw now) s)) = active_connections s)"
proof -
  have "\<forall>uid h. active_connections boot uid = Some h \<longrightarrow>
      sessions boot h = Some (Active uid) \<or> (\<exists>e. sessions boot h = Some (Failed e))"
    by (simp add: boot_def)
  from run_registry_linked [OF this, of ev evs]
  have live: "active_connections (snd (run ev evs boot)) uid = Some h \<longrightarrow>
      ((\<forall>x. sessions (snd (run ev evs boot)) h \<noteq> Some (Failed x)) \<longrightarrow>
           sessions (snd (run ev evs boot)) h = Some (Active uid))"
    by blast
  have hist: "active_connections (snd (run ev evs boot)) uid = Some h \<longrightarrow>
      (\<exists>pre token post p. evs = pre @ Connect h token # post
          \<and> sessions (snd (run ev pre boot)) h = None
          \<and> decode_access_token ev token = Some p \<and> p \<noteq> []
          \<and> py_int ev (map_of p ''sub'') = Some uid)"
    using registry_history [of ev evs uid h] by blast
  have reg: "sessions s c = None \<and> decode_access_token ev tok = Some q \<and> q \<noteq> []
        \<and> py_int ev (map_of q ''sub'') = Some u \<longrightarrow>
      active_connections (snd (step ev (Connect c tok) s)) = (active_connections s)(u \<mapsto> c)
      \<and> sessions (snd (step ev (Connect c tok) s)) c = Some (Active u)"
    by (simp add: connect_def)
  have unreg: "sessions s c = Some (Active u) \<longrightarrow>
      active_connections (snd (step ev (Disconnect c) s)) = (active_connections s)(u := None)
      \<and> sessions (snd (step ev (Disconnect c) s)) c = Some Closed"
    by (auto simp: disconnect_def)
  have keep: "sessions s c = Some (Active u) \<and> relay c u raw now s = (Inr outs, s') \<longrightarrow>
      active_connections (snd (step ev (Receive c raw now) s)) = active_connections s"
    using relay_result(1) [of c u raw now s "Inr outs" s'] by auto
  from live hist reg unreg keep show ?thesis by blast
qed

theorem registry_entry_lifecycle_witness:
  "active_connections (snd (run demo_env [Connect 1 ''5''] boot)) 5 = Some 1
   \<and> (\<exists>pre token post p. [Connect 1 ''5''] = pre @ Connect 1 token # post
        \<and> sessions (snd (run demo_env pre boot)) 1 = None
        \<and> decode_access_token demo_env token = Some p \<and> p \<noteq> []
        \<and> py_int demo_env (map_of p ''sub'') = Some 5)
   \<and> sessions (snd (run demo_env [Connect 1 ''5''] boot)) 1 = Some (Active 5)
   \<and> sessions one_user 3 = None
   \<and> active_connections (snd (step demo_env (Connect 3 ''2'') one_user)) 2 = Some 3
   \<and> active_connections (snd (step demo_env (Connect 3 ''2'') one_user)) 1 = Some 1
   \<and> sessions (snd (step demo_env (Connect 3 ''2'') one_user)) 3 = Some (Active 2)
   \<and> sessions one_user 1 = Some (Active 1)
   \<and> active_connections (snd (step demo_env (Disconnect 1) one_user)) 1 = None
   \<and> sessions (snd (step demo_env (Disconnect 1) one_user)) 1 = Some Closed
   \<and> sessions two_users 1 = Some (Active 1)
   \<and> active_connections (snd (step demo_env (Receive 1 (Json_object hi_frame) 10) two_users)) 2
       = Some 2"
proof -
  have a: "active_connections (snd (run demo_env [Connect 1 ''5''] boot)) 5 = Some 1"
    by code_simp
  have a': "sessions (snd (run demo_env [Connect 1 ''5''] boot)) 1 = Some (Active 5)"
    by code_simp
  then have nf: "\<forall>x. sessions (snd (run demo_env [Connect 1 ''5''] boot)) 1 \<noteq> Some (Failed x)"
    by simp
  have b: "sessions one_user 3 = None \<and> decode_access_token demo_env ''2'' = Some [(''sub'', ''2'')]
      \<and> [(''sub'', ''2'')] \<noteq> [] \<and> py_int demo_env (map_of [(''sub'', ''2'')] ''sub'') = Some 2"
    by code_simp
  have b': "active_connections one_user 1 = Some 1" by code_simp
  have c: "sessions one_user 1 = Some (Active 1)" by code_simp
  have d: "sessions two_users 1 = Some (Active 1)" by code_simp
  have d': "active_connections two_users 2 = Some 2" by code_simp
  have f: "f_content hi_frame = Some ''hi''" "f_conversation_id hi_frame = None"
    "f_to hi_frame = Some 2" by code_simp+
  note rel = relay_new_conv [OF f, of 1 1 10 two_users]
  note t1 = registry_entry_lifecycle [where ev = demo_env and evs = "[Connect 1 ''5'']"
      and uid = 5 and h = 1, THEN conjunct1, rule_format, OF a]
  note t2 = registry_entry_lifecycle [where ev = demo_env and s = one_user and c = 3
      and tok = "''2''" and q = "[(''sub'', ''2'')]" and u = 2,
      THEN conjunct2, THEN conjunct1, rule_format, OF b]
  note t3 = registry_entry_lifecycle [where ev = demo_env and s = one_user and c = 1 and u = 1,
      THEN conjunct2, THEN conjunct2, THEN conjunct1, rule_format, OF c]
  note t4 = registry_entry_lifecycle [where ev = demo_env and s = two_users and c = 1 and u = 1,
      THEN conjunct2, THEN conjunct2, THEN conjunct2, rule_format, OF conjI [OF d rel]]
  have r2: "active_connections (snd (step demo_env (Connect 3 ''2'') one_user)) 2 = Some 3"
    "active_connections (snd (step demo_env (Connect 3 ''2'') one_user)) 1 = Some 1"
    unfolding t2 [THEN conjunct1] by (simp_all add: b')
  have r3: "active_connections (snd (step demo_env (Disconnect 1) one_user)) 1 = None"
    unfolding t3 [THEN conjunct1] by simp
  have r4: "active_connections
      (snd (step demo_env (Receive 1 (Json_object hi_frame) 10) two_users)) 2 = Some 2"
    unfolding t4 by (rule d')
  from t1 nf have r1: "(\<exists>pre token post p. [Connect 1 ''5''] = pre @ Connect 1 token # post
        \<and> sessions (snd (run demo_env pre boot)) 1 = None
        \<and> decode_access_token demo_env token = Some p \<and> p \<noteq> []
        \<and> py_int demo_env (map_of p ''sub'') = Some 5)" by blast
  from a a' r1 b r2 t2 [THEN conjunct2] c r3 t3 [THEN conjunct2] d r4
  show ?thesis by blast
qed

text \<open>
  C2 as the specification states it fails: user 1 logs in on connection 1 and again on
  connection 2, then connection 1 disconnects. The loop of connection 2 is active for
  user 1, and user 1 is not in the registry.
\<close>

theorem registry_iff_active_counterexample:
  "sessions (snd (run demo_env [Connect 1 ''1'', Connect 2 ''1'', Disconnect 1] boot)) 2
     = Some (Active 1)
   \<and> active_connections (snd (run demo_env [Connect 1 ''1'', Connect 2 ''1'', Disconnect 1] boot)) 1
     = None"
  by code_simp

section \<open>Conversations created by the relay\<close>

text \<open>
  C3 (as the code has it). A frame without \<^verbatim>\<open>conversation_id\<close>, with a recipient and a
  content, always inserts a new conversation row: the sender as \<^verbatim>\<open>user_a\<close>, the recipient
  as \<^verbatim>\<open>user_b\<close>, in that order, under a key no existing conversation has. No existing
  conversation is looked up.
\<close>

theorem absent_conversation_id_creates_row:
  assumes "sessions s h = Some (Active uid)"
    and "f_conversation_id f = None" and "f_to f = Some r" and "f_content f = Some c"
  shows "conversations (db (snd (step ev (Receive h (Json_object f) now) s))) =
           conversations (db s) @
             [\<lparr>c_id = next_id (map c_id (conversations (db s))), c_user_a = uid, c_user_b = r\<rparr>]
         \<and> next_id (map c_id (conversations (db s))) \<notin> c_id ` set (conversations (db s))"
proof -
  have fresh: "next_id (map c_id (conversations (db s))) \<notin> c_id ` set (conversations (db s))"
    using next_id_fresh [of _ "map c_id (conversations (db s))"] by fastforce
  show ?thesis
    using fresh step_receive_ok [OF assms(1) relay_new_conv [OF assms(4) assms(2) assms(3)], of ev]
    by simp
qed

theorem absent_conversation_id_creates_row_witness:
  "conversations (db (snd (step demo_env
      (Receive 1 (Json_object \<lparr>f_to = Some 2, f_content = Some ''hi'', f_conversation_id = None\<rparr>) 10)
      (snd (run demo_env [Connect 1 ''1''] boot))))) =
     [\<lparr>c_id = 1, c_user_a = 1, c_user_b = 2\<rparr>]"
proof -
  let ?s = "snd (run demo_env [Connect 1 ''1''] boot)"
  let ?f = "\<lparr>f_to = Some 2, f_content = Some ''hi'', f_conversation_id = None\<rparr>"
  have a: "sessions ?s 1 = Some (Active 1)" by code_simp
  have b: "conversations (db ?s) = []" by code_simp
  have c: "next_id [] = 1" by code_simp
  have r: "conversations (db (snd (step demo_env (Receive 1 (Json_object ?f) 10) ?s))) =
      conversations (db ?s) @
        [\<lparr>c_id = next_id (map c_id (conversations (db ?s))), c_user_a = 1, c_user_b = 2\<rparr>]"
    using absent_conversation_id_creates_row [OF a, of ?f 2 "''hi''" demo_env 10]
    by (simp only: frame.simps simp_thms)
  show ?thesis unfolding r b by (simp add: c)
qed

text \<open>
  C3 as the specification states it fails: users 1 and 2 exchange three frames without
  \<^verbatim>\<open>conversation_id\<close>, and the store ends with three conversations of the pair, in both
  orders of the pair.
\<close>

theorem duplicate_conversations_counterexample:
  "conversations (db (snd (run demo_env
      [Connect 1 ''1'', Connect 2 ''2'',
       Receive 1 (Json_object \<lparr>f_to = Some 2, f_content = Some ''hi'', f_conversation_id = None\<rparr>) 10,
       Receive 2 (Json_object \<lparr>f_to = Some 1, f_content = Some ''yo'', f_conversation_id = None\<rparr>) 11,
       Receive 1 (Json_object \<lparr>f_to = Some 2, f_content = Some ''again'', f_conversation_id = None\<rparr>) 12]
      boot))) =
    [\<lparr>c_id = 1, c_user_a = 1, c_user_b = 2\<rparr>,
     \<lparr>c_id = 2, c_user_a = 2, c_user_b = 1\<rparr>,
     \<lparr>c_id = 3, c_user_a = 1, c_user_b = 2\<rparr>]"
  by code_simp

section \<open>Forwarding and echo\<close>

text \<open>
  C4 (as the code has it). A frame from user \<open>a\<close> to user \<open>b\<close>, received while the registry
  maps \<open>b\<close> to the handle \<open>hb\<close>, makes exactly two sends of one and the same outbound frame:
  first to \<open>hb\<close>, then to the sender's own handle. The frame carries the timestamp and the
  conversation of the message just persisted.
\<close>

theorem online_recipient_gets_same_frame:
  assumes "sessions s ha = Some (Active a)"
    and "active_connections s b = Some hb"
    and "f_to f = Some b" and "f_content f = Some c"
  shows "\<exists>out. fst (step ev (Receive ha (Json_object f) now) s) =
                 [Send_text hb out, Send_text ha out]
           \<and> p_sender_id out = a \<and> p_content out = Some c \<and> p_timestamp out = now
           \<and> p_conversation_id out =
               (case f_conversation_id f of
                  None \<Rightarrow> next_id (map c_id (conversations (db s)))
                | Some cid \<Rightarrow> cid)
           \<and> m_timestamp (last (messages (db (snd (step ev (Receive ha (Json_object f) now) s)))))
               = p_timestamp out
           \<and> m_conversation_id
                 (last (messages (db (snd (step ev (Receive ha (Json_object f) now) s)))))
               = p_conversation_id out"
proof (cases "f_conversation_id f")
  case None
  show ?thesis
    using step_receive_ok [OF assms(1) relay_new_conv [OF assms(4) None assms(3)], of ev]
    by (simp add: assms(2) None)
next
  case (Some cid)
  show ?thesis
    using step_receive_ok [OF assms(1) relay_with_conv [OF assms(4) Some], of ev]
    by (simp add: assms(2,3) Some)
qed

theorem online_recipient_gets_same_frame_witness:
  "sessions two_users 1 = Some (Active 1) \<and> active_connections two_users 2 = Some 2 \<and>
   fst (step demo_env (Receive 1 (Json_object hi_frame) 10) two_users) =
     [Send_text 2 \<lparr>p_conversation_id = 1, p_sender_id = 1, p_content = Some ''hi'', p_timestamp = 10\<rparr>,
      Send_text 1 \<lparr>p_conversation_id = 1, p_sender_id = 1, p_content = Some ''hi'', p_timestamp = 10\<rparr>]"
proof -
  have a: "sessions two_users 1 = Some (Active 1)" by code_simp
  have b: "active_connections two_users 2 = Some 2" by code_simp
  have c: "f_to hi_frame = Some 2" by code_simp
  have d: "f_content hi_frame = Some ''hi''" by code_simp
  have e: "(case f_conversation_id hi_frame of
              None \<Rightarrow> next_id (map c_id (conversations (db two_users)))
            | Some cid \<Rightarrow> cid) = 1" by code_simp
  obtain out where o: "fst (step demo_env (Receive 1 (Json_object hi_frame) 10) two_users) =
      [Send_text 2 out, Send_text 1 out]"
    "p_sender_id out = 1" "p_content out = Some ''hi''" "p_timestamp out = 10"
    "p_conversation_id out = 1"
    using online_recipient_gets_same_frame [OF a b c d, of demo_env 10] unfolding e by blast
  have "out = \<lparr>p_conversation_id = 1, p_sender_id = 1, p_content = Some ''hi'', p_timestamp = 10\<rparr>"
    using o(2-5) by (cases out) simp
  with o(1) a b show ?thesis by simp
qed

text \<open>
  C4 as the specification states it fails, since a connected user need not be in the
  registry: user 5 logs in on connection 1 and again on connection 2, connection 1
  disconnects, and user 1 logs in on connection 3 and sends a frame to user 5. The loop
  of connection 2 is active for user 5, and the only send is the echo to connection 3.
\<close>

theorem connected_recipient_counterexample:
  "sessions (snd (run demo_env
      [Connect 1 ''5'', Connect 2 ''5'', Disconnect 1, Connect 3 ''1''] boot)) 2
     = Some (Active 5)
   \<and> fst (run demo_env
      [Connect 1 ''5'', Connect 2 ''5'', Disconnect 1, Connect 3 ''1'',
       Receive 3 (Json_object to_five_frame) 20] boot) =
     [Accept 1, Accept 2, Accept 3,
      Send_text 3 \<lparr>p_conversation_id = 1, p_sender_id = 1, p_content = Some ''hello'',
                    p_timestamp = 20\<rparr>]"
  by code_simp

text \<open>
  C5. A frame from user \<open>a\<close> to a user \<open>b\<close> without a registry entry raises nothing: the
  message is persisted and returned by the read path of its conversation, the only send
  is the echo to the sender, and the sender's loop goes on.
\<close>

theorem offline_recipient_persisted_and_echoed:
  assumes "sessions s ha = Some (Active a)"
    and "active_connections s b = None"
    and "f_to f = Some b" and "f_content f = Some c"
  shows "\<exists>out msg. fst (step ev (Receive ha (Json_object f) now) s) = [Send_text ha out]
           \<and> p_sender_id out = a \<and> p_content out = Some c \<and> p_timestamp out = now
           \<and> msg \<in> set (get_messages (p_conversation_id out)
                          (db (snd (step ev (Receive ha (Json_object f) now) s))))
           \<and> m_sender_id msg = a \<and> m_content msg = c \<and> m_timestamp msg = now
           \<and> sessions (snd (step ev (Receive ha (Json_object f) now) s)) ha = Some (Active a)"
proof (cases "f_conversation_id f")
  case None
  show ?thesis
    using step_receive_ok [OF assms(1) relay_new_conv [OF assms(4) None assms(3)], of ev]
    by (fastforce simp: assms(1,2) set_get_messages)
next
  case (Some cid)
  show ?thesis
    using step_receive_ok [OF assms(1) relay_with_conv [OF assms(4) Some], of ev]
    by (fastforce simp: assms(1,2,3) set_get_messages)
qed

theorem offline_recipient_persisted_and_echoed_witness:
  "sessions one_user 1 = Some (Active 1) \<and> active_connections one_user 2 = None \<and>
   (\<exists>out msg. fst (step demo_env (Receive 1 (Json_object hi_frame) 10) one_user) =
        [Send_text 1 out]
      \<and> msg \<in> set (get_messages (p_conversation_id out)
                     (db (snd (step demo_env (Receive 1 (Json_object hi_frame) 10) one_user))))
      \<and> m_content msg = ''hi'')"
proof -
  have a: "sessions one_user 1 = Some (Active 1)" by code_simp
  have b: "active_connections one_user 2 = None" by code_simp
  have c: "f_to hi_frame = Some 2" by code_simp
  have d: "f_content hi_frame = Some ''hi''" by code_simp
  from offline_recipient_persisted_and_echoed [OF a b c d, of demo_env 10] a b
  show ?thesis by blast
qed

text \<open>
  C8. The registry is a dictionary, one handle per user. When a user logs in on a
  connection \<open>c1\<close> and then on a connection \<open>c2\<close>, the registry maps the user to \<open>c2\<close>,
  and a frame addressed to the user by any active connection \<open>hs\<close> is sent to \<open>c2\<close> and
  echoed to \<open>hs\<close>, and to no other handle.
\<close>

theorem duplicate_login_last_writer_wins:
  assumes "sessions s c1 = None" and "sessions s c2 = None" and "c1 \<noteq> c2"
    and "decode_access_token ev t1 = Some p1" and "p1 \<noteq> []"
    and "py_int ev (map_of p1 ''sub'') = Some uid"
    and "decode_access_token ev t2 = Some p2" and "p2 \<noteq> []"
    and "py_int ev (map_of p2 ''sub'') = Some uid"
    and "sessions (snd (run ev [Connect c1 t1, Connect c2 t2] s)) hs = Some (Active a)"
    and "f_to f = Some uid" and "f_content f = Some c"
  shows "active_connections (snd (run ev [Connect c1 t1, Connect c2 t2] s)) uid = Some c2
         \<and> (\<exists>out. fst (step ev (Receive hs (Json_object f) now)
                          (snd (run ev [Connect c1 t1, Connect c2 t2] s))) =
                     [Send_text c2 out, Send_text hs out]
                   \<and> p_sender_id out = a \<and> p_content out = Some c)"
proof -
  let ?s2 = "snd (run ev [Connect c1 t1, Connect c2 t2] s)"
  have reg: "active_connections ?s2 uid = Some c2"
    using assms(1-9) by (simp add: connect_def)
  have "\<exists>out. fst (step ev (Receive hs (Json_object f) now) ?s2) =
                 [Send_text c2 out, Send_text hs out]
             \<and> p_sender_id out = a \<and> p_content out = Some c"
    using step_receive_effect [OF assms(10,11,12), of ev now] unfolding reg
    by (simp only: option.case append_Cons append_Nil) blast
  with reg show ?thesis by blast
qed

theorem duplicate_login_last_writer_wins_witness:
  "active_connections (snd (run demo_env [Connect 11 ''5'', Connect 12 ''5''] one_user)) 5 = Some 12
   \<and> (\<exists>out. fst (step demo_env (Receive 1 (Json_object to_five_frame) 20)
                    (snd (run demo_env [Connect 11 ''5'', Connect 12 ''5''] one_user))) =
               [Send_text 12 out, Send_text 1 out]
             \<and> p_sender_id out = 1 \<and> p_content out = Some ''hello'')"
proof -
  have a: "sessions one_user 11 = None" "sessions one_user 12 = None" "(11::nat) \<noteq> 12"
    by code_simp+
  have b: "decode_access_token demo_env ''5'' = Some [(''sub'', ''5'')]" "[(''sub'', ''5'')] \<noteq> []"
    "py_int demo_env (map_of [(''sub'', ''5'')] ''sub'') = Some 5"
    by code_simp+
  have c: "sessions (snd (run demo_env [Connect 11 ''5'', Connect 12 ''5''] one_user)) 1
    = Some (Active 1)" by code_simp
  have d: "f_to to_five_frame = Some 5" "f_content to_five_frame = Some ''hello''"
    by code_simp+
  from duplicate_login_last_writer_wins [OF a b b c d, of 20]
  show ?thesis .
qed

section \<open>Frames with missing fields\<close>

text \<open>
  C6 (as the code has it). The endpoint validates nothing. A frame without a recipient
  that carries a content and a \<^verbatim>\<open>conversation_id\<close> is not dropped: its message is
  persisted under that conversation, the echo is sent to the sender, nothing is
  forwarded, and the loop goes on.
\<close>

theorem frame_without_recipient_is_relayed:
  assumes "sessions s h = Some (Active uid)"
    and "f_to f = None" and "f_content f = Some c" and "f_conversation_id f = Some cid"
  shows "fst (step ev (Receive h (Json_object f) now) s) =
           [Send_text h \<lparr>p_conversation_id = cid, p_sender_id = uid,
                          p_content = Some c, p_timestamp = now\<rparr>]
         \<and> messages (db (snd (step ev (Receive h (Json_object f) now) s))) =
             messages (db s) @
               [\<lparr>m_id = next_id (map m_id (messages (db s))), m_conversation_id = cid,
                 m_sender_id = uid, m_content = c, m_timestamp = now\<rparr>]
         \<and> sessions (snd (step ev (Receive h (Json_object f) now) s)) h = Some (Active uid)"
  using step_receive_ok [OF assms(1) relay_with_conv [OF assms(3) assms(4)], of ev]
  by (simp add: assms(1,2))

theorem frame_without_recipient_is_relayed_witness:
  "sessions after_hi 1 = Some (Active 1) \<and>
   fst (step demo_env (Receive 1 (Json_object no_recipient_frame) 11) after_hi) =
     [Send_text 1 \<lparr>p_conversation_id = 1, p_sender_id = 1, p_content = Some ''more'',
                    p_timestamp = 11\<rparr>] \<and>
   sessions (snd (step demo_env (Receive 1 (Json_object no_recipient_frame) 11) after_hi)) 1
     = Some (Active 1)"
proof -
  have a: "sessions after_hi 1 = Some (Active 1)" by code_simp
  have b: "f_to no_recipient_frame = None" by code_simp
  have c: "f_content no_recipient_frame = Some ''more''" by code_simp
  have d: "f_conversation_id no_recipient_frame = Some 1" by code_simp
  from frame_without_recipient_is_relayed [OF a b c d, of demo_env 11] a
  show ?thesis by blast
qed

text \<open>
  C6 as the specification states it fails: user 1 opens conversation 1 with a frame to
  user 2, then sends a frame without \<^verbatim>\<open>to\<close> that names conversation 1. The second frame
  is not dropped: its message is persisted and a reply is sent.
\<close>

theorem malformed_frame_counterexample:
  "f_to no_recipient_frame = None \<and>
   fst (run demo_env
     [Connect 1 ''1'', Receive 1 (Json_object hi_frame) 10,
      Receive 1 (Json_object no_recipient_frame) 11] boot) =
     [Accept 1,
      Send_text 1 \<lparr>p_conversation_id = 1, p_sender_id = 1, p_content = Some ''hi'',
                    p_timestamp = 10\<rparr>,
      Send_text 1 \<lparr>p_conversation_id = 1, p_sender_id = 1, p_content = Some ''more'',
                    p_timestamp = 11\<rparr>] \<and>
   messages (db (snd (run demo_env
     [Connect 1 ''1'', Receive 1 (Json_object hi_frame) 10,
      Receive 1 (Json_object no_recipient_frame) 11] boot))) =
     [\<lparr>m_id = 1, m_conversation_id = 1, m_sender_id = 1, m_content = ''hi'', m_timestamp = 10\<rparr>,
      \<lparr>m_id = 2, m_conversation_id = 1, m_sender_id = 1, m_content = ''more'',
       m_timestamp = 11\<rparr>]"
  by code_simp

text \<open>
  C10. A frame that names a \<^verbatim>\<open>conversation_id\<close> and has a content is persisted under that
  id by whoever sends it, whatever the conversation table holds (it is left as it is) and
  whoever the recipient is: the new message is the next row of the message table and is
  returned by the read path of that id.
\<close>

theorem named_conversation_id_is_not_checked:
  assumes "sessions s h = Some (Active uid)"
    and "f_content f = Some c" and "f_conversation_id f = Some cid"
  shows "messages (db (snd (step ev (Receive h (Json_object f) now) s))) =
           messages (db s) @
             [\<lparr>m_id = next_id (map m_id (messages (db s))), m_conversation_id = cid,
               m_sender_id = uid, m_content = c, m_timestamp = now\<rparr>]
         \<and> \<lparr>m_id = next_id (map m_id (messages (db s))), m_conversation_id = cid,
               m_sender_id = uid, m_content = c, m_timestamp = now\<rparr>
             \<in> set (get_messages cid (db (snd (step ev (Receive h (Json_object f) now) s))))
         \<and> conversations (db (snd (step ev (Receive h (Json_object f) now) s))) =
             conversations (db s)"
  using step_receive_ok [OF assms(1) relay_with_conv [OF assms(2) assms(3)], of ev]
  by (simp add: set_get_messages)

theorem named_conversation_id_is_not_checked_witness:
  "sessions intruder_state 3 = Some (Active 5) \<and>
   conversations (db intruder_state) = [\<lparr>c_id = 1, c_user_a = 1, c_user_b = 2\<rparr>] \<and>
   \<lparr>m_id = 2, m_conversation_id = 1, m_sender_id = 5, m_content = ''boo'', m_timestamp = 11\<rparr>
     \<in> set (get_messages 1
          (db (snd (step demo_env (Receive 3 (Json_object intruder_frame) 11) intruder_state))))"
proof -
  have a: "sessions intruder_state 3 = Some (Active 5)" by code_simp
  have b: "f_content intruder_frame = Some ''boo''" by code_simp
  have c: "f_conversation_id intruder_frame = Some 1" by code_simp
  have d: "conversations (db intruder_state) = [\<lparr>c_id = 1, c_user_a = 1, c_user_b = 2\<rparr>]"
    by code_simp
  have e: "next_id (map m_id (messages (db intruder_state))) = 2" by code_simp
  from named_conversation_id_is_not_checked [OF a b c, of demo_env 11] a d
  show ?thesis unfolding e by blast
qed

section \<open>Refused tokens\<close>

text \<open>
  C7. A new connection whose token is refused by \<^verbatim>\<open>decode_access_token\<close> (no payload, or an
  empty one) is closed with the status code 1008 and nothing else is done: the registry
  and the store are unchanged, and whatever happens afterwards the connection stays
  closed, so it never enters the loop.
\<close>

theorem refused_token_closes_connection:
  assumes "sessions s h = None"
    and "decode_access_token ev token = None \<or> decode_access_token ev token = Some []"
  shows "fst (step ev (Connect h token) s) = [Accept h, Close h 1008]
         \<and> active_connections (snd (step ev (Connect h token) s)) = active_connections s
         \<and> db (snd (step ev (Connect h token) s)) = db s
         \<and> sessions (snd (run ev (Connect h token # evs) s)) h = Some Closed"
proof -
  have st: "step ev (Connect h token) s =
      ([Accept h, Close h 1008], s\<lparr>sessions := (sessions s)(h \<mapsto> Closed)\<rparr>)"
    using assms by (auto simp: connect_def)
  have "sessions (snd (step ev (Connect h token) s)) h = Some Closed"
    unfolding st by simp
  from run_keeps_ended [OF this, of ev evs]
  have "sessions (snd (run ev (Connect h token # evs) s)) h = Some Closed"
    by (simp only: run_Cons_snd phase.distinct simp_thms)
  then show ?thesis unfolding st by simp
qed

theorem refused_token_closes_connection_witness:
  "sessions one_user 9 = None \<and> decode_access_token demo_env ''none'' = None \<and>
   fst (step demo_env (Connect 9 ''none'') one_user) = [Accept 9, Close 9 1008] \<and>
   sessions (snd (run demo_env
      [Connect 9 ''none'', Receive 9 (Json_object hi_frame) 10, Connect 9 ''5''] one_user)) 9
     = Some Closed"
proof -
  have a: "sessions one_user 9 = None" by code_simp
  have b: "decode_access_token demo_env ''none'' = None" by code_simp
  from refused_token_closes_connection [OF a disjI1 [OF b],
      of "[Receive 9 (Json_object hi_frame) 10, Connect 9 ''5'']"] a b
  show ?thesis by blast
qed

section \<open>Order within a connection\<close>

text \<open>The message table only grows.\<close>

lemma relay_messages_grow:
  "\<exists>ms. messages (db (snd (relay h uid raw now s))) = messages (db s) @ ms"
  by (auto simp: relay_def commit_conversation_def commit_message_def Let_def
      split: inbound.splits option.splits sum.splits prod.splits)

lemma step_messages_grow: "\<exists>ms. messages (db (snd (step ev e s))) = messages (db s) @ ms"
proof (cases e)
  case (Connect h token)
  then show ?thesis by (simp add: connect_def split: option.splits)
next
  case (Receive h raw now)
  show ?thesis
  proof (cases "sessions s h")
    case None
    then show ?thesis using Receive by simp
  next
    case (Some p)
    show ?thesis
    proof (cases p)
      case (Active a)
      obtain r s' where rel: "relay h a raw now s = (r, s')" by (cases "relay h a raw now s")
      from relay_messages_grow [of h a raw now s] rel
      obtain ms where "messages (db s') = messages (db s) @ ms" by auto
      then show ?thesis using Receive Some Active rel by (cases r) auto
    next
      case Closed
      then show ?thesis using Receive Some by simp
    next
      case (Failed x)
      then show ?thesis using Receive Some by simp
    qed
  qed
next
  case (Disconnect h)
  then show ?thesis by (simp add: disconnect_def split: option.splits phase.splits)
qed

lemma run_messages_grow: "\<exists>ms. messages (db (snd (run ev evs s))) = messages (db s) @ ms"
proof (induction evs arbitrary: s)
  case Nil
  show ?case by simp
next
  case (Cons e evs)
  obtain ms1 where a: "messages (db (snd (step ev e s))) = messages (db s) @ ms1"
    using step_messages_grow by blast
  obtain ms2 where b: "messages (db (snd (run ev evs (snd (step ev e s))))) =
      messages (db (snd (step ev e s))) @ ms2"
    using Cons.IH by blast
  show ?case unfolding run_Cons_snd b a by simp
qed

text \<open>
  C9. Let a connection \<open>h\<close> receive a frame \<open>f1\<close> and, later, a frame \<open>f2\<close>, with any
  events of any connections before, between and after, each frame with a recipient and
  a content and each received while the loop of \<open>h\<close> is active. Then the message of
  \<open>f1\<close> stands before the message of \<open>f2\<close> in the message table and has the smaller key,
  and the sends made for \<open>f1\<close> (to the recipient's handle if it has one, then the echo to
  \<open>h\<close>) all come before the sends made for \<open>f2\<close>.
\<close>

theorem session_keeps_order:
  assumes "sessions (snd (run ev evs1 s)) h = Some (Active u1)"
    and "f_to f1 = Some r1" and "f_content f1 = Some c1"
    and "sessions (snd (run ev (evs1 @ Receive h (Json_object f1) t1 # evs2) s)) h
           = Some (Active u2)"
    and "f_to f2 = Some r2" and "f_content f2 = Some c2"
  shows "\<exists>m1 m2 pre mid post p1 p2 o1 o2 o3.
      messages (db (snd (run ev
          (evs1 @ Receive h (Json_object f1) t1 # evs2 @ Receive h (Json_object f2) t2 # evs3) s)))
        = pre @ m1 # mid @ m2 # post
      \<and> m_content m1 = c1 \<and> m_timestamp m1 = t1
      \<and> m_content m2 = c2 \<and> m_timestamp m2 = t2
      \<and> m_id m1 < m_id m2
      \<and> fst (run ev
          (evs1 @ Receive h (Json_object f1) t1 # evs2 @ Receive h (Json_object f2) t2 # evs3) s)
        = o1
          @ (case active_connections (snd (run ev evs1 s)) r1 of
               None \<Rightarrow> [] | Some ws \<Rightarrow> [Send_text ws p1])
          @ Send_text h p1 # o2
          @ (case active_connections
                    (snd (run ev (evs1 @ Receive h (Json_object f1) t1 # evs2) s)) r2 of
               None \<Rightarrow> [] | Some ws \<Rightarrow> [Send_text ws p2])
          @ Send_text h p2 # o3
      \<and> p_content p1 = Some c1 \<and> p_timestamp p1 = t1
      \<and> p_content p2 = Some c2 \<and> p_timestamp p2 = t2"
proof -
  define R1 where "R1 = Receive h (Json_object f1) t1"
  define R2 where "R2 = Receive h (Json_object f2) t2"
  define s1 where "s1 = snd (run ev evs1 s)"
  define s1' where "s1' = snd (step ev R1 s1)"
  define s2 where "s2 = snd (run ev evs2 s1')"
  define s2' where "s2' = snd (step ev R2 s2)"
  define s3 where "s3 = snd (run ev evs3 s2')"
  have s2_eq: "snd (run ev (evs1 @ Receive h (Json_object f1) t1 # evs2) s) = s2"
    by (simp only: run_append_snd run_Cons_snd s2_def s1'_def s1_def R1_def)
  have fin_snd: "snd (run ev (evs1 @ R1 # evs2 @ R2 # evs3) s) = s3"
    by (simp only: run_append_snd run_Cons_snd s3_def s2'_def s2_def s1'_def s1_def)
  have fin_fst: "fst (run ev (evs1 @ R1 # evs2 @ R2 # evs3) s) =
      fst (run ev evs1 s) @ fst (step ev R1 s1) @ fst (run ev evs2 s1')
      @ fst (step ev R2 s2) @ fst (run ev evs3 s2')"
    by (simp only: run_append_fst run_append_snd run_Cons_fst run_Cons_snd
        s2'_def s2_def s1'_def s1_def append_assoc)
  have act1: "sessions s1 h = Some (Active u1)" using assms(1) by (simp only: s1_def)
  have act2: "sessions s2 h = Some (Active u2)" using assms(4) by (simp only: s2_eq)
  obtain p1 m1 where e1:
    "fst (step ev R1 s1) =
       (case active_connections s1 r1 of None \<Rightarrow> [] | Some ws \<Rightarrow> [Send_text ws p1])
       @ [Send_text h p1]"
    "p_content p1 = Some c1" "p_timestamp p1 = t1"
    "messages (db s1') = messages (db s1) @ [m1]"
    "m_content m1 = c1" "m_timestamp m1 = t1"
    using step_receive_effect [OF act1 assms(2,3), of ev t1] unfolding R1_def s1'_def by blast
  obtain p2 m2 where e2:
    "fst (step ev R2 s2) =
       (case active_connections s2 r2 of None \<Rightarrow> [] | Some ws \<Rightarrow> [Send_text ws p2])
       @ [Send_text h p2]"
    "p_content p2 = Some c2" "p_timestamp p2 = t2"
    "messages (db s2') = messages (db s2) @ [m2]"
    "m_id m2 = next_id (map m_id (messages (db s2)))"
    "m_content m2 = c2" "m_timestamp m2 = t2"
    using step_receive_effect [OF act2 assms(5,6), of ev t2] unfolding R2_def s2'_def by blast
  obtain mid where g2: "messages (db s2) = messages (db s1') @ mid"
    using run_messages_grow [of ev evs2 s1'] unfolding s2_def by blast
  obtain post where g3: "messages (db s3) = messages (db s2') @ post"
    using run_messages_grow [of ev evs3 s2'] unfolding s3_def by blast
  have "m1 \<in> set (messages (db s2))" unfolding g2 e1(4) by simp
  then have "m_id m1 \<in> set (map m_id (messages (db s2)))" by simp
  from next_id_fresh [OF this] have lt: "m_id m1 < m_id m2" unfolding e2(5) .
  have msgs: "messages (db s3) = messages (db s1) @ m1 # mid @ m2 # post"
    unfolding g3 e2(4) g2 e1(4) by simp
  have outs: "fst (run ev (evs1 @ R1 # evs2 @ R2 # evs3) s) =
      fst (run ev evs1 s)
      @ (case active_connections s1 r1 of None \<Rightarrow> [] | Some ws \<Rightarrow> [Send_text ws p1])
      @ Send_text h p1 # fst (run ev evs2 s1')
      @ (case active_connections s2 r2 of None \<Rightarrow> [] | Some ws \<Rightarrow> [Send_text ws p2])
      @ Send_text h p2 # fst (run ev evs3 s2')"
    unfolding fin_fst e1(1) e2(1) by simp
  have s2_eq': "snd (run ev (evs1 @ R1 # evs2) s) = s2"
    using s2_eq by (simp only: R1_def)
  show ?thesis
    unfolding R1_def [symmetric] R2_def [symmetric] s2_eq' s1_def [symmetric] fin_snd
    using msgs outs lt e1(2,3,5,6) e2(2,3,6,7) by blast
qed

theorem session_keeps_order_witness:
  "sessions (snd (run demo_env [Connect 1 ''1'', Connect 2 ''2''] boot)) 1 = Some (Active 1)
   \<and> sessions (snd (run demo_env
        ([Connect 1 ''1'', Connect 2 ''2''] @ Receive 1 (Json_object hi_frame) 10 #
         [Receive 2 (Json_object yo_frame) 11]) boot)) 1 = Some (Active 1)
   \<and> (\<exists>m1 m2 pre mid post.
        messages (db (snd (run demo_env
          ([Connect 1 ''1'', Connect 2 ''2''] @ Receive 1 (Json_object hi_frame) 10 #
           [Receive 2 (Json_object yo_frame) 11] @ Receive 1 (Json_object again_frame) 12 #
           [Disconnect 1]) boot)))
          = pre @ m1 # mid @ m2 # post
        \<and> m_content m1 = ''hi'' \<and> m_timestamp m1 = 10
        \<and> m_content m2 = ''again'' \<and> m_timestamp m2 = 12
        \<and> m_id m1 < m_id m2)"
proof -
  have a: "sessions (snd (run demo_env [Connect 1 ''1'', Connect 2 ''2''] boot)) 1
      = Some (Active 1)" by code_simp
  have b: "sessions (snd (run demo_env
        ([Connect 1 ''1'', Connect 2 ''2''] @ Receive 1 (Json_object hi_frame) 10 #
         [Receive 2 (Json_object yo_frame) 11]) boot)) 1 = Some (Active 1)" by code_simp
  have c: "f_to hi_frame = Some 2" "f_content hi_frame = Some ''hi''" by code_simp+
  have d: "f_to again_frame = Some 2" "f_content again_frame = Some ''again''" by code_simp+
  from session_keeps_order [OF a c b d, of 12 "[Disconnect 1]"] a b
  show ?thesis by blast
qed

end
